theory Spec2Isabelle
  imports Main
begin

section \<open>Python primitives used by the feature-extraction module\<close>

text \<open>
  Text is a list of 8-bit characters read as ASCII. A Python \<open>set\<close> of strings is a
  duplicate-free list of its elements; the order of the list stands for the iteration
  order, which Python leaves unspecified, so every statement about a set is made through
  \<open>set\<close>. A Python \<open>dict\<close> is an association list in insertion order. An uncaught
  exception is a value of type \<open>error\<close>.
\<close>

datatype error =
    FileNotFoundError
  | FileExistsError
  | IndexError
  | KeyError
  | MisalignedOutput    \<comment> \<open>named by the specification only; nothing in the source raises it\<close>
  | UnknownDescriptor   \<comment> \<open>named by the specification only; nothing in the source raises it\<close>

definition TAB :: char where "TAB = CHR 0x09"
definition NL :: char where "NL = CHR 0x0A"

text \<open>\<open>str.isspace\<close> on one ASCII character: the characters \<open>str.strip()\<close> removes.\<close>

definition isspace :: "char \<Rightarrow> bool" where
  "isspace c = (c \<in> set [CHR 0x09, CHR 0x0A, CHR 0x0B, CHR 0x0C, CHR 0x0D,
                          CHR 0x1C, CHR 0x1D, CHR 0x1E, CHR 0x1F, CHR 0x20])"

text \<open>\<open>s.strip()\<close>: leading and trailing whitespace removed.\<close>

definition str_strip :: "string \<Rightarrow> string" where
  "str_strip s = rev (dropWhile isspace (rev (dropWhile isspace s)))"

text \<open>\<open>s.split(sep)\<close> for a one-character separator: never empty, \<open>''''.split(sep) = ['''']\<close>.\<close>

fun str_split :: "char \<Rightarrow> string \<Rightarrow> string list" where
  "str_split sep [] = [[]]"
| "str_split sep (c # cs) =
     (if c = sep then [] # str_split sep cs
      else (case str_split sep cs of [] \<Rightarrow> [[c]] | w # ws \<Rightarrow> (c # w) # ws))"

text \<open>\<open>s.replace(a, b)\<close> for one-character \<open>a\<close> and \<open>b\<close>.\<close>

definition str_replace :: "char \<Rightarrow> char \<Rightarrow> string \<Rightarrow> string" where
  "str_replace a b s = map (\<lambda>c. if c = a then b else c) s"

text \<open>\<open>xs[i]\<close> for a Python int \<open>i\<close>: a negative index counts from the end.\<close>

definition index :: "'a list \<Rightarrow> int \<Rightarrow> error + 'a" where
  "index xs i =
     (if 0 \<le> i \<and> i < int (length xs) then Inr (xs ! nat i)
      else if i < 0 \<and> - i \<le> int (length xs) then Inr (xs ! nat (int (length xs) + i))
      else Inl IndexError)"

text \<open>
  Iterating over a text file: the content cut after each newline, every line keeping its
  terminator; no line is empty.
\<close>

fun readlines :: "string \<Rightarrow> string list" where
  "readlines [] = []"
| "readlines (c # cs) =
     (if c = NL then [c] # readlines cs
      else (case readlines cs of [] \<Rightarrow> [[c]] | l # ls \<Rightarrow> (c # l) # ls))"

subsection \<open>Sets and dicts\<close>

type_synonym pyset = "string list"
type_synonym pydict = "(string \<times> string) list"

definition set_add :: "string \<Rightarrow> pyset \<Rightarrow> pyset" where
  "set_add x s = (if x \<in> set s then s else s @ [x])"

definition set_diff :: "pyset \<Rightarrow> pyset \<Rightarrow> pyset" where
  "set_diff a b = filter (\<lambda>x. x \<notin> set b) a"

text \<open>\<open>d[k] = v\<close>: an existing key keeps its place, a new key goes last.\<close>

fun dict_set :: "string \<Rightarrow> string \<Rightarrow> pydict \<Rightarrow> pydict" where
  "dict_set k v [] = [(k, v)]"
| "dict_set k v (p # ps) = (if fst p = k then (k, v) # ps else p # dict_set k v ps)"

definition dict_keys :: "pydict \<Rightarrow> string list" where
  "dict_keys d = map fst d"

definition dict_get :: "pydict \<Rightarrow> string \<Rightarrow> error + string" where
  "dict_get d k = (case map_of d k of None \<Rightarrow> Inl KeyError | Some v \<Rightarrow> Inr v)"

text \<open>\<open>sub in s\<close> for strings.\<close>

fun contains :: "string \<Rightarrow> string \<Rightarrow> bool" where
  "contains sub [] = (sub = [])"
| "contains sub (c # cs) = (take (length sub) (c # cs) = sub \<or> contains sub cs)"

section \<open>The world outside the program\<close>

text \<open>
  What the module reads and changes. The matrix directory
  \<open>{path_to_folder}/pssm_files\<close> and the scratch directory
  \<open>{path_to_folder}/temp_folder/single_fastas\<close> are listed by the code, so each is a dict
  from file name to content (\<open>None\<close>: the directory does not exist); every other file is
  reached by its path only. The three are taken to be disjoint, an identifier is taken not
  to contain a path separator, and opening a path for writing is taken to succeed when
  its directory is one of the two above and exists, or is any other directory. Text
  printed to the terminal is left out. The two traces record, oldest first, every URL
  given to \<open>requests.get\<close> and every command line given to \<open>os.system\<close>.
\<close>

record world =
  files :: "string \<rightharpoonup> string"
  dirs :: "string set"
  pssm_files :: "pydict option"
  single_fastas :: "pydict option"
  net_calls :: "string list"
  sys_calls :: "string list"

text \<open>
  The external collaborators, none of them part of the repository: the install location,
  the platform string, the remote endpoint (the body when \<open>raise_for_status\<close> passes,
  \<open>None\<close> when it raises \<open>HTTPError\<close>), the local search program (the matrix it writes
  for a query file, \<open>None\<close> when it writes none) and the two descriptor tools (the raw
  output file they write for a descriptor type, \<open>None\<close> when they write none).
\<close>

record env =
  path_to_folder :: string
  platform :: string
  remote :: "string \<Rightarrow> string option"
  psiblast :: "string \<Rightarrow> string option"
  possum :: "string \<Rightarrow> world \<Rightarrow> string option"
  ifeature :: "string \<Rightarrow> world \<Rightarrow> string option"

text \<open>Sequencing of operations that may raise: the first exception ends the run.\<close>

definition bindE ::
  "(world \<Rightarrow> (error + 'a) \<times> world) \<Rightarrow> ('a \<Rightarrow> world \<Rightarrow> (error + 'b) \<times> world) \<Rightarrow>
   world \<Rightarrow> (error + 'b) \<times> world" where
  "bindE m f w = (case m w of (Inl e, w') \<Rightarrow> (Inl e, w') | (Inr x, w') \<Rightarrow> f x w')"

definition os_path_exists :: "world \<Rightarrow> string \<Rightarrow> bool" where
  "os_path_exists w p = (p \<in> dirs w \<or> files w p \<noteq> None)"

definition os_path_isdir :: "world \<Rightarrow> string \<Rightarrow> bool" where
  "os_path_isdir w p = (p \<in> dirs w)"

definition os_makedirs :: "string \<Rightarrow> world \<Rightarrow> (error + unit) \<times> world" where
  "os_makedirs p w =
     (if os_path_exists w p then (Inl FileExistsError, w)
      else (Inr (), w\<lparr>dirs := insert p (dirs w)\<rparr>))"

section \<open>utils.py\<close>

subsection \<open>\<open>find_pssm_missing_proteins\<close>\<close>

text \<open>
  The second argument is what \<open>os.listdir(pssm_dir)\<close> gives: \<open>None\<close> when the directory
  does not exist (the call raises), otherwise the file names in it.
\<close>

definition find_pssm_missing_proteins :: "pyset \<Rightarrow> string list option \<Rightarrow> error + string list" where
  "find_pssm_missing_proteins set_proteins_fasta listing =
     (case listing of
        None \<Rightarrow> Inl FileNotFoundError
      | Some names \<Rightarrow>
          let set_proteins_pssm =
                foldl (\<lambda>s file. set_add (hd (str_split (CHR ''.'') file)) s) [] names
          in Inr (set_diff set_proteins_fasta set_proteins_pssm))"

text \<open>
  The specification's words: the identifiers present in a directory are the substrings
  before the first dot of its file names.
\<close>

definition present :: "string list \<Rightarrow> string set" where
  "present names = (\<lambda>file. takeWhile (\<lambda>c. c \<noteq> CHR ''.'') file) ` set names"

subsection \<open>\<open>read_fasta_to_dict\<close>\<close>

text \<open>
  One turn of the loop over the lines, on the loop's three variables
  \<open>(fasta_dict, sequence, prot_id)\<close>.
\<close>

definition fasta_step ::
  "int \<Rightarrow> string \<Rightarrow> pydict \<times> string \<times> string \<Rightarrow> error + pydict \<times> string \<times> string" where
  "fasta_step place_protein_id line st =
     (case st of (fasta_dict, sequence, prot_id) \<Rightarrow>
        if line = [] then Inl IndexError
        else if hd line = CHR ''>'' then
          (let fasta_dict1 =
                 (if prot_id \<noteq> [] then dict_set prot_id sequence fasta_dict else fasta_dict)
           in case index (str_split (CHR ''|'') (str_strip line)) place_protein_id of
                Inl e \<Rightarrow> Inl e
              | Inr field \<Rightarrow>
                  let prot_id1 = (if place_protein_id = 0 then drop 1 field else field)
                  in if prot_id1 \<notin> set (dict_keys fasta_dict1)
                     then Inr (dict_set prot_id1 [] fasta_dict1, [], prot_id1)
                     else Inr (fasta_dict1, sequence, prot_id1))
        else Inr (fasta_dict, sequence @ str_strip line, prot_id))"

fun fasta_loop ::
  "int \<Rightarrow> string list \<Rightarrow> pydict \<times> string \<times> string \<Rightarrow> error + pydict \<times> string \<times> string" where
  "fasta_loop place_protein_id [] st = Inr st"
| "fasta_loop place_protein_id (line # lines) st =
     (case fasta_step place_protein_id line st of
        Inl e \<Rightarrow> Inl e
      | Inr st' \<Rightarrow> fasta_loop place_protein_id lines st')"

definition read_fasta_to_dict :: "string \<Rightarrow> string \<Rightarrow> int \<Rightarrow> world \<Rightarrow> error + pydict" where
  "read_fasta_to_dict input_dir fasta_file place_protein_id w =
     (case files w (input_dir @ ''/'' @ fasta_file @ ''.fasta'') of
        None \<Rightarrow> Inl FileNotFoundError
      | Some content \<Rightarrow>
          (case fasta_loop place_protein_id (readlines content) ([], [], []) of
             Inl e \<Rightarrow> Inl e
           | Inr (fasta_dict, sequence, prot_id) \<Rightarrow> Inr (dict_set prot_id sequence fasta_dict)))"

subsection \<open>\<open>form_single_fasta_files\<close>\<close>

definition path_single_fastas :: "env \<Rightarrow> string" where
  "path_single_fastas env = path_to_folder env @ ''/temp_folder/single_fastas''"

text \<open>
  The loop body: the file is opened (created empty) before \<open>fasta_dict[prot_id]\<close> is
  looked up.
\<close>

fun write_single_fastas :: "string list \<Rightarrow> pydict \<Rightarrow> world \<Rightarrow> (error + unit) \<times> world" where
  "write_single_fastas [] fasta_dict w = (Inr (), w)"
| "write_single_fastas (prot_id # rest) fasta_dict w =
     (case single_fastas w of
        None \<Rightarrow> (Inl FileNotFoundError, w)
      | Some d \<Rightarrow>
          let w1 = w\<lparr>single_fastas := Some (dict_set (prot_id @ ''.fasta'') [] d)\<rparr>
          in case dict_get fasta_dict prot_id of
               Inl e \<Rightarrow> (Inl e, w1)
             | Inr sequence \<Rightarrow>
                 write_single_fastas rest fasta_dict
                   (w\<lparr>single_fastas :=
                        Some (dict_set (prot_id @ ''.fasta'')
                                (''>sp|'' @ prot_id @ [NL] @ sequence @ [NL]) d)\<rparr>))"

definition form_single_fasta_files ::
  "env \<Rightarrow> string list \<Rightarrow> pydict \<Rightarrow> world \<Rightarrow> (error + unit) \<times> world" where
  "form_single_fasta_files env list_proteins_no_pssm fasta_dict w =
     (let w1 = (if single_fastas w = None then w\<lparr>single_fastas := Some []\<rparr> else w)
      in write_single_fastas list_proteins_no_pssm fasta_dict w1)"

subsection \<open>\<open>form_missing_pssm_files\<close>\<close>

text \<open>
  \<open>os.system\<close> on a psiblast command line: the call is recorded, and the matrix the
  program writes, if any, appears in the matrix directory when that directory exists.
\<close>

definition os_system_psiblast :: "env \<Rightarrow> string \<Rightarrow> string \<Rightarrow> string \<Rightarrow> world \<Rightarrow> world" where
  "os_system_psiblast env command prot_id query w =
     (let w1 = w\<lparr>sys_calls := sys_calls w @ [command]\<rparr>
      in case (psiblast env query, pssm_files w1) of
           (Some matrix, Some d) \<Rightarrow>
             w1\<lparr>pssm_files := Some (dict_set (prot_id @ ''.pssm'') matrix d)\<rparr>
         | _ \<Rightarrow> w1)"

definition psiblast_command :: "env \<Rightarrow> string \<Rightarrow> string \<Rightarrow> string \<Rightarrow> string" where
  "psiblast_command env program single_fasta_prot pssmfile =
     (let path_blast = path_to_folder env @ ''/ncbi-blast''
      in path_blast @ ''/'' @ program @ '' -db '' @ path_blast
         @ ''/uniref50_db/uniref50.blastdb -evalue 0.001 -query '' @ single_fasta_prot
         @ '' -out_ascii_pssm '' @ pssmfile @ ''  -out '' @ path_blast
         @ ''/outfile -num_iterations 3 -comp_based_stats 1'')"

fun psiblast_loop :: "env \<Rightarrow> string \<Rightarrow> pydict \<Rightarrow> world \<Rightarrow> world" where
  "psiblast_loop env pssm_dir [] w = w"
| "psiblast_loop env pssm_dir (entry # rest) w =
     (let filename = fst entry;
          prot_id = str_strip (hd (str_split (CHR ''.'') filename));
          single_fasta_prot = path_single_fastas env @ ''/'' @ filename;
          pssmfile = pssm_dir @ ''/'' @ prot_id @ ''.pssm''
      in if contains ''Linux'' (platform env) then
           psiblast_loop env pssm_dir rest
             (os_system_psiblast env
                (psiblast_command env ''psiblast'' single_fasta_prot pssmfile)
                prot_id (snd entry) w)
         else if contains ''Darwin'' (platform env) then
           psiblast_loop env pssm_dir rest
             (os_system_psiblast env
                (psiblast_command env ''psiblastMAC'' single_fasta_prot pssmfile)
                prot_id (snd entry) w)
         else psiblast_loop env pssm_dir rest w)"

text \<open>
  The only caller passes \<open>{path_to_folder}/pssm_files\<close> as \<open>pssm_dir\<close>, the matrix
  directory of the world. \<open>shutil.rmtree\<close> removes the scratch directory.
\<close>

definition form_missing_pssm_files :: "env \<Rightarrow> string \<Rightarrow> world \<Rightarrow> (error + unit) \<times> world" where
  "form_missing_pssm_files env pssm_dir w =
     (case single_fastas w of
        None \<Rightarrow> (Inl FileNotFoundError, w)
      | Some d \<Rightarrow> (Inr (), (psiblast_loop env pssm_dir d w)\<lparr>single_fastas := None\<rparr>))"

subsection \<open>\<open>copy_pssms\<close>\<close>

fun copy_pssms :: "env \<Rightarrow> string list \<Rightarrow> world \<Rightarrow> (error + unit) \<times> world" where
  "copy_pssms env [] w = (Inr (), w)"
| "copy_pssms env (prot_id # rest) w =
     (let remote_url = ''https://slpred.kansil.org/swissprot_pssms/'' @ prot_id @ ''.pssm'';
          w1 = w\<lparr>net_calls := net_calls w @ [remote_url]\<rparr>
      in case remote env remote_url of
           None \<Rightarrow> copy_pssms env rest w1
         | Some content \<Rightarrow>
             (case pssm_files w1 of
                None \<Rightarrow> (Inl FileNotFoundError, w1)
              | Some d \<Rightarrow>
                  copy_pssms env rest
                    (w1\<lparr>pssm_files := Some (dict_set (prot_id @ ''.pssm'') content d)\<rparr>)))"

subsection \<open>\<open>copy_form_pssm_matrices\<close>\<close>

definition copy_form_pssm_matrices :: "env \<Rightarrow> pydict \<Rightarrow> world \<Rightarrow> (error + unit) \<times> world" where
  "copy_form_pssm_matrices env fasta_dict w =
     (let pssm_dir = path_to_folder env @ ''/pssm_files''
      in case find_pssm_missing_proteins (remdups (dict_keys fasta_dict))
                (map_option dict_keys (pssm_files w)) of
           Inl e \<Rightarrow> (Inl e, w)
         | Inr list_proteins_no_pssm1 \<Rightarrow>
             bindE (if length list_proteins_no_pssm1 \<noteq> 0
                    then copy_pssms env list_proteins_no_pssm1
                    else (\<lambda>w. (Inr (), w)))
               (\<lambda>_ w1.
                  case find_pssm_missing_proteins (remdups (dict_keys fasta_dict))
                         (map_option dict_keys (pssm_files w1)) of
                    Inl e \<Rightarrow> (Inl e, w1)
                  | Inr list_proteins_no_pssm2 \<Rightarrow>
                      if length list_proteins_no_pssm2 \<noteq> 0
                      then bindE (form_single_fasta_files env list_proteins_no_pssm2 fasta_dict)
                             (\<lambda>_. form_missing_pssm_files env pssm_dir) w1
                      else (Inr (), w1))
               w)"

subsection \<open>\<open>edit_extracted_features_POSSUM\<close>\<close>

text \<open>
  The raw file is opened for reading, then the output file is opened for writing, which
  empties it; only then are the lines read. So when both paths are the same file no
  line is left to read. The written text is the concatenation of the \<open>write\<close> calls, one
  per pair of \<open>zip(fp, fasta_dict)\<close>; at last the raw file is removed.
\<close>

definition POSSUM_record :: "string \<times> string \<Rightarrow> string" where
  "POSSUM_record p =
     (case p of (line, prot_id) \<Rightarrow>
        prot_id @ [TAB] @ str_replace (CHR '','') TAB (str_strip line) @ [NL])"

definition edit_extracted_features_POSSUM ::
  "string \<Rightarrow> string \<Rightarrow> pydict \<Rightarrow> world \<Rightarrow> (error + unit) \<times> world" where
  "edit_extracted_features_POSSUM temp_output_file output_file fasta_dict w =
     (case files w temp_output_file of
        None \<Rightarrow> (Inl FileNotFoundError, w)
      | Some raw0 \<Rightarrow>
          let raw = (if output_file = temp_output_file then [] else raw0);
              written = concat (map POSSUM_record (zip (readlines raw) (dict_keys fasta_dict)));
              w1 = w\<lparr>files := (files w)(output_file \<mapsto> written)\<rparr>
          in (Inr (), w1\<lparr>files := (files w1)(temp_output_file := None)\<rparr>))"

subsection \<open>\<open>edit_extracted_features_iFeature\<close>\<close>

text \<open>What one raw line makes the loop write: nothing for a comment line.\<close>

definition iFeature_record :: "int \<Rightarrow> string \<Rightarrow> error + string" where
  "iFeature_record place_protein_id0 line =
     (if line = [] then Inl IndexError
      else if hd line = CHR ''#'' then Inr []
      else
        let line_split = str_split TAB (str_strip line)
        in case index (str_split (CHR ''|'') (hd line_split)) place_protein_id0 of
             Inl e \<Rightarrow> Inl e
           | Inr protein_id \<Rightarrow>
               Inr (protein_id @ concat (map (\<lambda>feature. TAB # feature) (tl line_split)) @ [NL]))"

text \<open>The loop over the raw lines, with the text written so far.\<close>

fun iFeature_loop :: "int \<Rightarrow> string list \<Rightarrow> string \<Rightarrow> (error + unit) \<times> string" where
  "iFeature_loop place_protein_id0 [] written = (Inr (), written)"
| "iFeature_loop place_protein_id0 (line # lines) written =
     (case iFeature_record place_protein_id0 line of
        Inl e \<Rightarrow> (Inl e, written)
      | Inr text \<Rightarrow> iFeature_loop place_protein_id0 lines (written @ text))"

text \<open>
  An exception inside the loop leaves the output file with the text written so far and
  the raw file in place.
\<close>

definition edit_extracted_features_iFeature ::
  "string \<Rightarrow> string \<Rightarrow> int \<Rightarrow> world \<Rightarrow> (error + unit) \<times> world" where
  "edit_extracted_features_iFeature temp_output_file output_file place_protein_id0 w =
     (case files w temp_output_file of
        None \<Rightarrow> (Inl FileNotFoundError, w)
      | Some raw0 \<Rightarrow>
          let raw = (if output_file = temp_output_file then [] else raw0)
          in case iFeature_loop place_protein_id0 (readlines raw) [] of
               (Inl e, written) \<Rightarrow> (Inl e, w\<lparr>files := (files w)(output_file \<mapsto> written)\<rparr>)
             | (Inr _, written) \<Rightarrow>
                 let w1 = w\<lparr>files := (files w)(output_file \<mapsto> written)\<rparr>
                 in (Inr (), w1\<lparr>files := (files w1)(temp_output_file := None)\<rparr>))"

section \<open>feature\_extracter.py\<close>

record feature_extracter =
  protein_feature :: string
  place_protein_id :: int
  input_folder :: string
  fasta_file_name :: string
  POSSUM_desc_list :: pyset
  iFeature_desc_list :: pyset

text \<open>\<open>__init__\<close>: the two vocabularies in the order the set literals are written.\<close>

definition init :: "string \<Rightarrow> int \<Rightarrow> string \<Rightarrow> string \<Rightarrow> feature_extracter" where
  "init protein_feature0 place_protein_id0 input_folder0 fasta_file_name0 =
     \<lparr>protein_feature = protein_feature0,
      place_protein_id = place_protein_id0,
      input_folder = input_folder0,
      fasta_file_name = fasta_file_name0,
      POSSUM_desc_list =
        [''aac_pssm'', ''d_fpssm'', ''smoothed_pssm'', ''ab_pssm'', ''pssm_composition'',
         ''rpm_pssm'', ''s_fpssm'', ''dpc_pssm'', ''k_separated_bigrams_pssm'', ''eedp'',
         ''tpc'', ''edp'', ''rpssm'', ''pse_pssm'', ''dp_pssm'', ''pssm_ac'', ''pssm_cc'',
         ''aadp_pssm'', ''aatp'', ''medp'', ''tri_gram_pssm'', ''all_POSSUM''],
      iFeature_desc_list =
        [''AAC'', ''PAAC'', ''APAAC'', ''DPC'', ''GAAC'', ''CKSAAP'', ''CKSAAGP'', ''GDPC'',
         ''Moran'', ''Geary'', ''NMBroto'', ''CTDC'', ''CTDD'', ''CTDT'', ''CTriad'',
         ''KSCTriad'', ''SOCNumber'', ''QSOrder'', ''all_iFeature'']\<rparr>"

text \<open>The constructor's default arguments.\<close>

definition init_default :: feature_extracter where
  "init_default = init ''aac_pssm'' 1 ''input_folder'' ''sample''"

definition temp_output_path :: "env \<Rightarrow> feature_extracter \<Rightarrow> string \<Rightarrow> string" where
  "temp_output_path env self prot_feat =
     path_to_folder env @ ''/temp_folder/temp_output_folder/'' @ fasta_file_name self
     @ ''_'' @ prot_feat @ ''.txt''"

text \<open>\<open>re.split('/', input_folder)[-1]\<close>; the pattern is one literal character.\<close>

definition output_dir :: "feature_extracter \<Rightarrow> string" where
  "output_dir self = ''feature_extraction_output/'' @ last (str_split (CHR ''/'') (input_folder self))"

definition output_path :: "feature_extracter \<Rightarrow> string \<Rightarrow> string" where
  "output_path self prot_feat =
     output_dir self @ ''/'' @ fasta_file_name self @ ''_'' @ prot_feat @ ''.txt''"

subsection \<open>\<open>extract_POSSUM_feature\<close>\<close>

definition POSSUM_command :: "env \<Rightarrow> feature_extracter \<Rightarrow> string \<Rightarrow> string" where
  "POSSUM_command env self prot_feat =
     ''python '' @ path_to_folder env @ ''/POSSUM_Standalone_Toolkit/src/possum.py -i ''
     @ input_folder self @ ''/'' @ fasta_file_name self @ ''.fasta -o ''
     @ temp_output_path env self prot_feat @ '' -t '' @ prot_feat @ '' -p ''
     @ path_to_folder env @ ''/pssm_files''"

text \<open>
  \<open>os.system\<close> on a descriptor tool's command line: the call is recorded, and the raw
  file the tool writes, if any, appears at the path given to it.
\<close>

definition os_system_tool :: "string \<Rightarrow> string option \<Rightarrow> string \<Rightarrow> world \<Rightarrow> world" where
  "os_system_tool command produced temp_output_file w =
     (let w1 = w\<lparr>sys_calls := sys_calls w @ [command]\<rparr>
      in case produced of
           None \<Rightarrow> w1
         | Some raw \<Rightarrow> w1\<lparr>files := (files w1)(temp_output_file \<mapsto> raw)\<rparr>)"

text \<open>
  The \<open>for prot_feat in list_desc\<close> loop. The body ends with \<open>return output_file\<close>, so
  the descriptors after the first are never visited; an empty \<open>list_desc\<close> falls off
  the loop and the method returns \<open>None\<close>.
\<close>

fun POSSUM_for ::
  "env \<Rightarrow> feature_extracter \<Rightarrow> pydict \<Rightarrow> string list \<Rightarrow> world \<Rightarrow> (error + string option) \<times> world" where
  "POSSUM_for env self fasta_dict [] w = (Inr None, w)"
| "POSSUM_for env self fasta_dict (prot_feat # rest) w =
     (let temp_output_file = temp_output_path env self prot_feat;
          w1 = os_system_tool (POSSUM_command env self prot_feat) (possum env prot_feat w)
                 temp_output_file w;
          w2 = (if \<not> os_path_exists w1 (output_dir self)
                then w1\<lparr>dirs := insert (output_dir self) (dirs w1)\<rparr> else w1);
          output_file = output_path self prot_feat
      in case edit_extracted_features_POSSUM temp_output_file output_file fasta_dict w2 of
           (Inl e, w3) \<Rightarrow> (Inl e, w3)
         | (Inr _, w3) \<Rightarrow> (Inr (Some output_file), w3))"

definition extract_POSSUM_feature ::
  "env \<Rightarrow> feature_extracter \<Rightarrow> world \<Rightarrow> (error + string option) \<times> world" where
  "extract_POSSUM_feature env self w =
     (case read_fasta_to_dict (input_folder self) (fasta_file_name self) (place_protein_id self) w of
        Inl e \<Rightarrow> (Inl e, w)
      | Inr fasta_dict \<Rightarrow>
          bindE (copy_form_pssm_matrices env fasta_dict)
            (\<lambda>_. let list_desc =
                        (if protein_feature self = ''all_POSSUM''
                         then set_diff (POSSUM_desc_list self) [''all_POSSUM'']
                         else [protein_feature self])
                  in POSSUM_for env self fasta_dict list_desc)
            w)"

subsection \<open>\<open>extract_iFeature_feature\<close>\<close>

definition iFeature_command :: "env \<Rightarrow> feature_extracter \<Rightarrow> string \<Rightarrow> string" where
  "iFeature_command env self prot_feat =
     ''python '' @ path_to_folder env @ ''/iFeature/iFeature.py --file ''
     @ input_folder self @ ''/'' @ fasta_file_name self @ ''.fasta --type '' @ prot_feat
     @ '' --out '' @ temp_output_path env self prot_feat"

text \<open>
  The same loop shape, with the same \<open>return\<close> at the end of the body. Here the output
  directory is tested with \<open>os.path.isdir\<close>, so \<open>os.makedirs\<close> can meet a regular file
  of that name and raise.
\<close>

fun iFeature_for ::
  "env \<Rightarrow> feature_extracter \<Rightarrow> string list \<Rightarrow> world \<Rightarrow> (error + string option) \<times> world" where
  "iFeature_for env self [] w = (Inr None, w)"
| "iFeature_for env self (prot_feat # rest) w =
     (let temp_output_file = temp_output_path env self prot_feat;
          w1 = os_system_tool (iFeature_command env self prot_feat) (ifeature env prot_feat w)
                 temp_output_file w
      in case (if \<not> os_path_isdir w1 (output_dir self)
               then os_makedirs (output_dir self) w1 else (Inr (), w1)) of
           (Inl e, w2) \<Rightarrow> (Inl e, w2)
         | (Inr _, w2) \<Rightarrow>
             let output_file = output_path self prot_feat
             in case edit_extracted_features_iFeature temp_output_file output_file
                       (place_protein_id self) w2 of
                  (Inl e, w3) \<Rightarrow> (Inl e, w3)
                | (Inr _, w3) \<Rightarrow> (Inr (Some output_file), w3))"

definition extract_iFeature_feature ::
  "env \<Rightarrow> feature_extracter \<Rightarrow> world \<Rightarrow> (error + string option) \<times> world" where
  "extract_iFeature_feature env self w =
     (let list_desc =
            (if protein_feature self = ''all_iFeature''
             then set_diff (iFeature_desc_list self) [''all_iFeature'']
             else [protein_feature self])
      in iFeature_for env self list_desc w)"

section \<open>Example inputs\<close>

text \<open>
  An environment whose remote endpoint answers every request with an HTTP error, whose
  local search writes no matrix, and whose descriptor tools write three raw data lines for
  every descriptor type.
\<close>

definition example_env :: env where
  "example_env =
     \<lparr>path_to_folder = ''/opt/profab'',
      platform = ''Linux-5.15-x86_64'',
      remote = (\<lambda>url. None),
      psiblast = (\<lambda>query. None),
      possum = (\<lambda>prot_feat w. Some (''0.1,0.2'' @ [NL] @ ''0.3,0.4'' @ [NL] @ ''0.5,0.6'' @ [NL])),
      ifeature = (\<lambda>prot_feat w.
        Some (''#'' @ [TAB] @ ''f.1'' @ [TAB] @ ''f.2'' @ [NL] @
              ''sp|P1|A_HUMAN'' @ [TAB] @ ''0.1'' @ [TAB] @ ''0.2'' @ [NL] @
              ''sp|P2|B_HUMAN'' @ [TAB] @ ''0.3'' @ [TAB] @ ''0.4'' @ [NL] @
              ''sp|P3|C_HUMAN'' @ [TAB] @ ''0.5'' @ [TAB] @ ''0.6'' @ [NL]))\<rparr>"

text \<open>A matrix directory holding \<open>O27002.pssm\<close>, and nothing else in the world.\<close>

definition example_world_O27002 :: world where
  "example_world_O27002 =
     \<lparr>files = Map.empty, dirs = {},
      pssm_files = Some [(''O27002.pssm'', ''matrix'')],
      single_fastas = None, net_calls = [], sys_calls = []\<rparr>"

text \<open>
  A matrix directory holding \<open>NP_000509.1.pssm\<close>, the matrix file of an identifier that
  contains a dot, and nothing else in the world.
\<close>

definition example_world_NP_000509 :: world where
  "example_world_NP_000509 =
     \<lparr>files = Map.empty, dirs = {},
      pssm_files = Some [(''NP_000509.1.pssm'', ''matrix'')],
      single_fastas = None, net_calls = [], sys_calls = []\<rparr>"

text \<open>A world holding one raw tool output, \<open>raw.txt\<close>.\<close>

definition example_world_raw :: "string \<Rightarrow> world" where
  "example_world_raw raw =
     \<lparr>files = [''raw.txt'' \<mapsto> raw], dirs = {}, pssm_files = None,
      single_fastas = None, net_calls = [], sys_calls = []\<rparr>"

definition example_fasta_dict2 :: pydict where
  "example_fasta_dict2 = [(''P1'', ''MKV''), (''P2'', ''MAL'')]"

definition example_raw2 :: string where
  "example_raw2 = ''0.1,0.2'' @ [NL] @ ''0.3,0.4'' @ [NL]"

text \<open>
  A FASTA file of three proteins in \<open>input_folder/sample.fasta\<close>, with the three matrices
  already in the matrix directory.
\<close>

definition example_fasta3 :: string where
  "example_fasta3 =
     ''>sp|P1|A_HUMAN'' @ [NL] @ ''MKV'' @ [NL] @
     ''>sp|P2|B_HUMAN'' @ [NL] @ ''MAL'' @ [NL] @
     ''>sp|P3|C_HUMAN'' @ [NL] @ ''MGG'' @ [NL]"

definition example_world_fasta3 :: world where
  "example_world_fasta3 =
     \<lparr>files = [''input_folder/sample.fasta'' \<mapsto> example_fasta3], dirs = {},
      pssm_files = Some [(''P1.pssm'', ''m1''), (''P2.pssm'', ''m2''), (''P3.pssm'', ''m3'')],
      single_fastas = None, net_calls = [], sys_calls = []\<rparr>"

text \<open>A world whose only file is \<open>input_folder/sample.fasta\<close> with the given content.\<close>

definition example_world_fasta :: "string \<Rightarrow> world" where
  "example_world_fasta content =
     \<lparr>files = [''input_folder/sample.fasta'' \<mapsto> content], dirs = {},
      pssm_files = Some [], single_fastas = None, net_calls = [], sys_calls = []\<rparr>"

definition example_fasta_O27002 :: string where
  "example_fasta_O27002 = ''>sp|O27002|Y1234_METTH'' @ [NL] @ ''MKV'' @ [NL] @ ''LAG'' @ [NL]"

text \<open>A raw output of the encoding toolkit: a comment line and two data lines.\<close>

definition example_raw_iFeature :: string where
  "example_raw_iFeature =
     ''#'' @ [TAB] @ ''f.1'' @ [TAB] @ ''f.2'' @ [NL] @
     ''sp|P1|A_HUMAN'' @ [TAB] @ ''0.1'' @ [TAB] @ ''0.2'' @ [NL] @
     ''sp|P2|B_HUMAN'' @ [TAB] @ ''0.3'' @ [TAB] @ ''0.4'' @ [NL]"



section \<open>The specification's wording\<close>

text \<open>A line of a file without its terminator.\<close>

definition chomp :: "string \<Rightarrow> string" where
  "chomp line = takeWhile (\<lambda>c. c \<noteq> NL) line"

text \<open>
  The specification's words for a normalized PSSM-family line: the identifier, a tab, the
  raw line with every comma replaced by a tab.
\<close>

definition spec_POSSUM_line :: "string \<Rightarrow> string \<Rightarrow> string" where
  "spec_POSSUM_line prot_id raw_line = prot_id @ [TAB] @ str_replace (CHR '','') TAB raw_line"

text \<open>
  The specification's words for the identifier of a header: split on the pipe, take the
  field at the index, and at index 0 strip the leading marker \<open>>\<close> from that field.
\<close>

definition spec_identifier :: "int \<Rightarrow> string \<Rightarrow> error + string" where
  "spec_identifier header_field_index header =
     (case index (str_split (CHR ''|'') header) header_field_index of
        Inl e \<Rightarrow> Inl e
      | Inr field \<Rightarrow>
          Inr (if header_field_index = 0 \<and> field \<noteq> [] \<and> hd field = CHR ''>''
               then tl field else field))"

text \<open>The header lines of a file, and the identifiers the rule above gives for them.\<close>

definition is_header :: "string \<Rightarrow> bool" where
  "is_header line = (line \<noteq> [] \<and> hd line = CHR ''>'')"

definition header_idents :: "int \<Rightarrow> string list \<Rightarrow> string list" where
  "header_idents header_field_index lines =
     concat (map (\<lambda>h. case spec_identifier header_field_index (str_strip h) of
                         Inl e \<Rightarrow> [] | Inr ident \<Rightarrow> [ident])
                 (filter is_header lines))"

text \<open>
  The data lines of a raw tool output: its lines that do not start with the comment
  marker \<open>#\<close>.
\<close>

definition is_comment :: "string \<Rightarrow> bool" where
  "is_comment line = (line \<noteq> [] \<and> hd line = CHR ''#'')"

definition data_lines :: "string \<Rightarrow> string list" where
  "data_lines raw = filter (\<lambda>line. \<not> is_comment line) (readlines raw)"


section \<open>Properties\<close>

lemma str_split_not_Nil: "str_split sep s \<noteq> []"
  by (induction s) (auto split: list.splits)

lemma hd_str_split: "hd (str_split sep s) = takeWhile (\<lambda>c. c \<noteq> sep) s"
  by (induction s) (auto split: list.splits simp: str_split_not_Nil)

lemma set_foldl_set_add:
  "set (foldl (\<lambda>s file. set_add (f file) s) acc names) = set acc \<union> f ` set names"
  by (induction names arbitrary: acc) (auto simp: set_add_def)

lemma find_missing_empty:
  "set ids \<subseteq> present names \<Longrightarrow> find_pssm_missing_proteins ids (Some names) = Inr []"
  by (auto simp: find_pssm_missing_proteins_def set_diff_def present_def Let_def
        set_foldl_set_add hd_str_split filter_empty_conv)

subsection \<open>The missing-matrix resolver\<close>

text \<open>
  C2. For every set of identifiers and every existing matrix directory,
  \<open>find_pssm_missing_proteins\<close> returns a list whose elements are exactly the identifiers
  that are not the part before the first dot of a file name of the directory; for an
  empty directory these are all the identifiers, and for no identifiers the list is empty.
\<close>

theorem find_pssm_missing_proteins_exact:
  "map_sum id set (find_pssm_missing_proteins ids (Some names)) = Inr (set ids - present names)
   \<and> map_sum id set (find_pssm_missing_proteins ids (Some [])) = Inr (set ids)
   \<and> find_pssm_missing_proteins [] (Some names) = Inr []"
  by (auto simp: find_pssm_missing_proteins_def set_diff_def present_def Let_def
        set_foldl_set_add hd_str_split)

subsection \<open>The vocabularies\<close>

text \<open>
  C5, as the code has it. The PSSM-family vocabulary built by the constructor holds 21
  concrete descriptor names and the alias \<open>all_POSSUM\<close>; the encoding-family vocabulary
  holds 18 concrete names and the alias \<open>all_iFeature\<close>.
\<close>

theorem vocabulary_sizes:
  "card (set (POSSUM_desc_list (init feat place folder name)) - {''all_POSSUM''}) = 21
   \<and> ''all_POSSUM'' \<in> set (POSSUM_desc_list (init feat place folder name))
   \<and> card (set (iFeature_desc_list (init feat place folder name)) - {''all_iFeature''}) = 18
   \<and> ''all_iFeature'' \<in> set (iFeature_desc_list (init feat place folder name))"
  by (simp add: init_def)

text \<open>
  C5, as the specification states it (20 and 17 concrete names), fails on the
  constructor with its default arguments.
\<close>

theorem vocabulary_sizes_counterexample:
  "\<not> (card (set (POSSUM_desc_list init_default) - {''all_POSSUM''}) = 20
      \<and> card (set (iFeature_desc_list init_default) - {''all_iFeature''}) = 17)"
  by (simp add: init_def init_default_def)

subsection \<open>Matrix acquisition\<close>

text \<open>
  C7, as the code has it. The acquisition stage decides what is missing with the resolver,
  which knows a matrix file only by the part of its name before the first dot. When the
  matrix directory exists and every identifier of the parsed FASTA is the part before the
  first dot of one of its file names, \<open>copy_form_pssm_matrices\<close> returns normally and
  leaves the whole world as it was: no URL is requested, no command is run, and the
  matrix directory is unchanged.
\<close>

theorem acquisition_without_missing_matrices:
  assumes "pssm_files w = Some d"
    and "set (dict_keys fasta_dict) \<subseteq> present (dict_keys d)"
  shows "copy_form_pssm_matrices env fasta_dict w = (Inr (), w)
         \<and> net_calls (snd (copy_form_pssm_matrices env fasta_dict w)) = net_calls w
         \<and> sys_calls (snd (copy_form_pssm_matrices env fasta_dict w)) = sys_calls w
         \<and> pssm_files (snd (copy_form_pssm_matrices env fasta_dict w)) = pssm_files w"
proof -
  have "find_pssm_missing_proteins (remdups (dict_keys fasta_dict))
          (map_option dict_keys (pssm_files w)) = Inr []"
    using assms by (simp add: find_missing_empty)
  then have "copy_form_pssm_matrices env fasta_dict w = (Inr (), w)"
    by (simp add: copy_form_pssm_matrices_def bindE_def)
  then show ?thesis by simp
qed

text \<open>
  The scenario of the specification: the directory holds \<open>O27002.pssm\<close> and the FASTA
  holds only \<open>O27002\<close>.
\<close>

theorem acquisition_without_missing_matrices_witness:
  "pssm_files example_world_O27002 = Some [(''O27002.pssm'', ''matrix'')]
   \<and> set (dict_keys [(''O27002'', ''MKV'')]) \<subseteq> present (dict_keys [(''O27002.pssm'', ''matrix'')])
   \<and> copy_form_pssm_matrices example_env [(''O27002'', ''MKV'')] example_world_O27002
       = (Inr (), example_world_O27002)"
proof -
  have h1: "pssm_files example_world_O27002 = Some [(''O27002.pssm'', ''matrix'')]"
    by (simp add: example_world_O27002_def)
  have h2: "set (dict_keys [(''O27002'', ''MKV'')])
              \<subseteq> present (dict_keys [(''O27002.pssm'', ''matrix'')])"
    by (simp add: dict_keys_def present_def)
  show ?thesis
    using h1 h2 acquisition_without_missing_matrices [OF h1 h2, of example_env] by simp
qed

text \<open>
  C7, as the specification states it, fails on an identifier that contains a dot. The
  matrix directory holds \<open>NP_000509.1.pssm\<close>, the matrix file of the only identifier
  \<open>NP_000509.1\<close>; the resolver reads the file name as \<open>NP_000509\<close> and reports the
  identifier missing, so the stage requests the remote matrix and, the request failing,
  runs the local search once.
\<close>

theorem acquisition_dotted_identifier_counterexample:
  "map_option dict_keys (pssm_files example_world_NP_000509) = Some [''NP_000509.1'' @ ''.pssm'']
   \<and> find_pssm_missing_proteins [''NP_000509.1''] (Some [''NP_000509.1'' @ ''.pssm''])
       = Inr [''NP_000509.1'']
   \<and> fst (copy_form_pssm_matrices example_env [(''NP_000509.1'', ''MKV'')]
            example_world_NP_000509) = Inr ()
   \<and> net_calls (snd (copy_form_pssm_matrices example_env [(''NP_000509.1'', ''MKV'')]
                       example_world_NP_000509))
       = [''https://slpred.kansil.org/swissprot_pssms/NP_000509.1.pssm'']
   \<and> length (sys_calls (snd (copy_form_pssm_matrices example_env [(''NP_000509.1'', ''MKV'')]
                               example_world_NP_000509))) = 1"
  by code_simp

subsection \<open>Lines of a text\<close>

lemma readlines_nonempty: "l \<in> set (readlines s) \<Longrightarrow> l \<noteq> []"
  by (induction s arbitrary: l) (auto split: if_splits list.splits)

lemma readlines_Nil_iff: "readlines s = [] \<longleftrightarrow> s = []"
  by (cases s) (auto split: list.splits)

lemma readlines_inner: "l \<in> set (readlines s) \<Longrightarrow> NL \<notin> set (butlast l)"
proof (induction s arbitrary: l)
  case Nil then show ?case by simp
next
  case (Cons c cs)
  show ?case
  proof (cases "c = NL")
    case True
    with Cons show ?thesis by auto
  next
    case False
    show ?thesis
    proof (cases "readlines cs")
      case Nil
      with Cons.prems False show ?thesis by simp
    next
      case (Cons x xs)
      have x: "x \<noteq> []" using readlines_nonempty[of x cs] Cons by simp
      from Cons.prems False Cons have "l = c # x \<or> l \<in> set xs" by auto
      then show ?thesis
      proof
        assume "l = c # x"
        moreover have "NL \<notin> set (butlast x)" using Cons.IH[of x] Cons by simp
        ultimately show ?thesis using False x by auto
      next
        assume "l \<in> set xs"
        then show ?thesis using Cons.IH[of l] Cons by simp
      qed
    qed
  qed
qed

lemma set_dropWhile_subset: "set (dropWhile P xs) \<subseteq> set xs"
  by (induction xs) auto

lemma isspace_NL: "isspace NL"
  by (simp add: isspace_def NL_def)

lemma strip_no_NL:
  assumes "NL \<notin> set (butlast s)"
  shows "NL \<notin> set (str_strip s)"
proof -
  define t where "t = dropWhile isspace s"
  obtain p where p: "s = p @ t" unfolding t_def
    by (metis takeWhile_dropWhile_id)
  have bt: "NL \<notin> set (butlast t)"
  proof (cases "t = []")
    case True then show ?thesis by simp
  next
    case False
    then have "butlast s = p @ butlast t" using p by (simp add: butlast_append)
    then show ?thesis using assms by auto
  qed
  have "NL \<notin> set (dropWhile isspace (rev t))"
  proof (cases "t = []")
    case True then show ?thesis by simp
  next
    case False
    then have rt: "rev t = last t # rev (butlast t)"
      by (metis append_butlast_last_id rev_eq_Cons_iff rev_rev_ident)
    show ?thesis
    proof (cases "isspace (last t)")
      case True
      have "dropWhile isspace (rev t) = dropWhile isspace (rev (butlast t))"
        by (subst rt) (simp add: True)
      then have "set (dropWhile isspace (rev t)) \<subseteq> set (rev (butlast t))"
        using set_dropWhile_subset[of isspace "rev (butlast t)"] by simp
      then show ?thesis using bt by auto
    next
      case False
      then have "last t \<noteq> NL" using isspace_NL by auto
      moreover have "set t = insert (last t) (set (butlast t))"
        using \<open>t \<noteq> []\<close> by (metis append_butlast_last_id list.simps(15) rotate1.simps(2) set_rotate1)
      ultimately have "NL \<notin> set (rev t)" using bt by simp
      then show ?thesis using set_dropWhile_subset[of isspace "rev t"] by auto
    qed
  qed
  then show ?thesis by (simp add: str_strip_def t_def)
qed

lemma readlines_line:
  "NL \<notin> set l \<Longrightarrow> readlines (l @ NL # rest) = (l @ [NL]) # readlines rest"
  by (induction l) auto

lemma readlines_concat_records:
  "(\<And>r. r \<in> set rs \<Longrightarrow> \<exists>l. r = l @ [NL] \<and> NL \<notin> set l) \<Longrightarrow> readlines (concat rs) = rs"
proof (induction rs)
  case Nil then show ?case by simp
next
  case (Cons r rs)
  then obtain l where l: "r = l @ [NL]" "NL \<notin> set l" by auto
  have "readlines (concat rs) = rs" using Cons by simp
  then show ?case using l readlines_line[of l "concat rs"] by simp
qed


subsection \<open>The PSSM-family normalizer\<close>

lemma POSSUM_record_shape:
  assumes "line \<in> set (readlines raw)" and "NL \<notin> set prot_id"
  shows "\<exists>l. POSSUM_record (line, prot_id) = l @ [NL] \<and> NL \<notin> set l"
proof -
  have "NL \<notin> set (str_strip line)"
    using assms(1) by (simp add: readlines_inner strip_no_NL)
  then have "NL \<notin> set (str_replace (CHR '','') TAB (str_strip line))"
    by (auto simp: str_replace_def TAB_def NL_def)
  then have "NL \<notin> set (prot_id @ [TAB] @ str_replace (CHR '','') TAB (str_strip line))"
    using assms(2) by (simp add: TAB_def NL_def)
  then show ?thesis by (simp add: POSSUM_record_def)
qed

lemma readlines_POSSUM_records:
  assumes "\<forall>k \<in> set keys. NL \<notin> set k"
  shows "readlines (concat (map POSSUM_record (zip (readlines raw) keys)))
         = map POSSUM_record (zip (readlines raw) keys)"
proof (rule readlines_concat_records)
  fix r assume "r \<in> set (map POSSUM_record (zip (readlines raw) keys))"
  then obtain line k where "r = POSSUM_record (line, k)" "(line, k) \<in> set (zip (readlines raw) keys)"
    by auto
  then show "\<exists>l. r = l @ [NL] \<and> NL \<notin> set l"
    using POSSUM_record_shape[of line raw k] assms by (auto dest: set_zip_leftD set_zip_rightD)
qed

lemma zip_take_left: "zip xs (take (length xs) ys) = zip xs ys"
proof (induction xs arbitrary: ys)
  case Nil then show ?case by simp
next
  case (Cons x xs) then show ?case by (cases ys) simp_all
qed

lemma edit_POSSUM_result:
  assumes "files w temp_output_file = Some raw" and "output_file \<noteq> temp_output_file"
  shows "fst (edit_extracted_features_POSSUM temp_output_file output_file fasta_dict w) = Inr ()"
    and "files (snd (edit_extracted_features_POSSUM temp_output_file output_file fasta_dict w)) output_file
         = Some (concat (map POSSUM_record (zip (readlines raw) (dict_keys fasta_dict))))"
    and "files (snd (edit_extracted_features_POSSUM temp_output_file output_file fasta_dict w)) temp_output_file
         = None"
  using assms by (simp_all add: edit_extracted_features_POSSUM_def Let_def)

text \<open>
  C8, as the code has it. When the raw file (another file than the output file) has as
  many lines as there are proteins, and no identifier holds a newline, the normalizer
  returns normally and line \<open>i\<close> of the output file is the \<open>i\<close>-th identifier in parse
  order, a tab, and the \<open>i\<close>-th raw line stripped of leading and trailing whitespace with
  every comma replaced by a tab.
\<close>

theorem POSSUM_normalizer_lines:
  assumes "files w temp_output_file = Some raw"
    and "output_file \<noteq> temp_output_file"
    and "length (readlines raw) = length fasta_dict"
    and "\<forall>k \<in> set (dict_keys fasta_dict). NL \<notin> set k"
    and "i < length fasta_dict"
  shows "fst (edit_extracted_features_POSSUM temp_output_file output_file fasta_dict w) = Inr ()
    \<and> (\<exists>written.
          files (snd (edit_extracted_features_POSSUM temp_output_file output_file fasta_dict w))
            output_file = Some written
          \<and> length (readlines written) = length fasta_dict
          \<and> readlines written ! i
              = dict_keys fasta_dict ! i @ [TAB]
                @ str_replace (CHR '','') TAB (str_strip (readlines raw ! i)) @ [NL])"
proof -
  let ?recs = "map POSSUM_record (zip (readlines raw) (dict_keys fasta_dict))"
  have rl: "readlines (concat ?recs) = ?recs"
    using assms(4) by (rule readlines_POSSUM_records)
  have len: "length ?recs = length fasta_dict"
    using assms(3) by (simp add: dict_keys_def)
  have nth: "?recs ! i = dict_keys fasta_dict ! i @ [TAB]
                @ str_replace (CHR '','') TAB (str_strip (readlines raw ! i)) @ [NL]"
    using assms(3,5) by (simp add: dict_keys_def POSSUM_record_def)
  show ?thesis
    using edit_POSSUM_result[OF assms(1,2), of fasta_dict] rl len nth by simp
qed

theorem POSSUM_normalizer_lines_witness:
  "fst (edit_extracted_features_POSSUM ''raw.txt'' ''out.txt'' example_fasta_dict2
          (example_world_raw example_raw2)) = Inr ()
   \<and> (\<exists>written.
         files (snd (edit_extracted_features_POSSUM ''raw.txt'' ''out.txt'' example_fasta_dict2
                  (example_world_raw example_raw2))) ''out.txt'' = Some written
         \<and> length (readlines written) = length example_fasta_dict2
         \<and> readlines written ! 1
             = dict_keys example_fasta_dict2 ! 1 @ [TAB]
               @ str_replace (CHR '','') TAB (str_strip (readlines example_raw2 ! 1)) @ [NL])"
proof -
  have h1: "files (example_world_raw example_raw2) ''raw.txt'' = Some example_raw2"
    by (simp add: example_world_raw_def)
  have h2: "''out.txt'' \<noteq> ''raw.txt''" by simp
  have h3: "length (readlines example_raw2) = length example_fasta_dict2"
    by code_simp
  have h4: "\<forall>k \<in> set (dict_keys example_fasta_dict2). NL \<notin> set k"
    by code_simp
  have h5: "1 < length example_fasta_dict2"
    by (simp add: example_fasta_dict2_def)
  show ?thesis
    using POSSUM_normalizer_lines [OF h1 h2 h3 h4 h5] .
qed

text \<open>
  C8, as the specification states it, fails on a raw line that ends with a space: the
  code writes the line without the space.
\<close>

theorem POSSUM_line_counterexample:
  "length (readlines (''0.1,0.2 '' @ [NL])) = length [(''P1'', ''MKV'')]
   \<and> files (snd (edit_extracted_features_POSSUM ''raw.txt'' ''out.txt'' [(''P1'', ''MKV'')]
            (example_world_raw (''0.1,0.2 '' @ [NL])))) ''out.txt''
       \<noteq> Some (spec_POSSUM_line ''P1'' (chomp (readlines (''0.1,0.2 '' @ [NL]) ! 0)) @ [NL])"
  by code_simp

text \<open>
  C3, as the code has it. The normalizer has no alignment check: when the raw file
  (another file than the output file) has fewer lines than there are proteins, it returns
  normally, the output file holds one line per raw line, paired with the first
  identifiers in parse order, and the raw file is removed.
\<close>

theorem POSSUM_normalizer_truncates:
  assumes "files w temp_output_file = Some raw"
    and "output_file \<noteq> temp_output_file"
    and "length (readlines raw) < length fasta_dict"
    and "\<forall>k \<in> set (dict_keys fasta_dict). NL \<notin> set k"
  shows "fst (edit_extracted_features_POSSUM temp_output_file output_file fasta_dict w) = Inr ()
    \<and> (\<exists>written.
          files (snd (edit_extracted_features_POSSUM temp_output_file output_file fasta_dict w))
            output_file = Some written
          \<and> length (readlines written) = length (readlines raw)
          \<and> readlines written
              = map POSSUM_record (zip (readlines raw) (take (length (readlines raw)) (dict_keys fasta_dict))))
    \<and> files (snd (edit_extracted_features_POSSUM temp_output_file output_file fasta_dict w))
         temp_output_file = None"
proof -
  let ?recs = "map POSSUM_record (zip (readlines raw) (dict_keys fasta_dict))"
  have rl: "readlines (concat ?recs) = ?recs"
    using assms(4) by (rule readlines_POSSUM_records)
  have len: "length ?recs = length (readlines raw)"
    using assms(3) by (simp add: dict_keys_def)
  have tk: "zip (readlines raw) (dict_keys fasta_dict)
            = zip (readlines raw) (take (length (readlines raw)) (dict_keys fasta_dict))"
    by (rule zip_take_left [symmetric])
  show ?thesis
    using edit_POSSUM_result[OF assms(1,2), of fasta_dict] rl len tk by simp
qed

theorem POSSUM_normalizer_truncates_witness:
  "fst (edit_extracted_features_POSSUM ''raw.txt'' ''out.txt'' example_fasta_dict2
          (example_world_raw (''0.1,0.2'' @ [NL]))) = Inr ()
   \<and> (\<exists>written.
         files (snd (edit_extracted_features_POSSUM ''raw.txt'' ''out.txt'' example_fasta_dict2
                  (example_world_raw (''0.1,0.2'' @ [NL])))) ''out.txt'' = Some written
         \<and> length (readlines written) = length (readlines (''0.1,0.2'' @ [NL]))
         \<and> readlines written
             = map POSSUM_record
                 (zip (readlines (''0.1,0.2'' @ [NL]))
                    (take (length (readlines (''0.1,0.2'' @ [NL]))) (dict_keys example_fasta_dict2))))
   \<and> files (snd (edit_extracted_features_POSSUM ''raw.txt'' ''out.txt'' example_fasta_dict2
                (example_world_raw (''0.1,0.2'' @ [NL])))) ''raw.txt'' = None"
proof -
  have h1: "files (example_world_raw (''0.1,0.2'' @ [NL])) ''raw.txt'' = Some (''0.1,0.2'' @ [NL])"
    by (simp add: example_world_raw_def)
  have h2: "''out.txt'' \<noteq> ''raw.txt''" by simp
  have h3: "length (readlines (''0.1,0.2'' @ [NL])) < length example_fasta_dict2"
    by code_simp
  have h4: "\<forall>k \<in> set (dict_keys example_fasta_dict2). NL \<notin> set k"
    by code_simp
  show ?thesis
    using POSSUM_normalizer_truncates [OF h1 h2 h3 h4] .
qed

text \<open>
  C3, as the specification states it, fails on a raw file of one line for two proteins:
  no \<open>MisalignedOutput\<close> is raised and a one-line output file is written.
\<close>

theorem POSSUM_misaligned_counterexample:
  "length (readlines (''0.1,0.2'' @ [NL])) < length example_fasta_dict2
   \<and> fst (edit_extracted_features_POSSUM ''raw.txt'' ''out.txt'' example_fasta_dict2
            (example_world_raw (''0.1,0.2'' @ [NL]))) \<noteq> Inl MisalignedOutput
   \<and> files (snd (edit_extracted_features_POSSUM ''raw.txt'' ''out.txt'' example_fasta_dict2
            (example_world_raw (''0.1,0.2'' @ [NL])))) ''out.txt''
       = Some (''P1'' @ [TAB] @ ''0.1'' @ [TAB] @ ''0.2'' @ [NL])"
  by code_simp

subsection \<open>Descriptor invocation\<close>

lemma copy_form_no_missing:
  assumes "pssm_files w = Some d"
    and "set (dict_keys fasta_dict) \<subseteq> present (dict_keys d)"
  shows "copy_form_pssm_matrices env fasta_dict w = (Inr (), w)"
proof -
  have "find_pssm_missing_proteins (remdups (dict_keys fasta_dict))
          (map_option dict_keys (pssm_files w)) = Inr []"
    using assms by (simp add: find_missing_empty)
  then show ?thesis
    by (simp add: copy_form_pssm_matrices_def bindE_def)
qed

lemma edit_POSSUM_frame:
  "sys_calls (snd (edit_extracted_features_POSSUM t out fd w)) = sys_calls w
   \<and> fst (edit_extracted_features_POSSUM t out fd w) \<noteq> Inl UnknownDescriptor"
  by (simp add: edit_extracted_features_POSSUM_def Let_def split: option.splits)

lemma iFeature_record_error: "iFeature_record p line = Inl e \<Longrightarrow> e = IndexError"
  by (auto simp: iFeature_record_def index_def Let_def split: if_splits sum.splits)

lemma iFeature_loop_error: "fst (iFeature_loop p ls acc) = Inl e \<Longrightarrow> e = IndexError"
  by (induction ls arbitrary: acc) (auto split: sum.splits dest: iFeature_record_error)

lemma edit_iFeature_frame:
  "sys_calls (snd (edit_extracted_features_iFeature t out p w)) = sys_calls w
   \<and> fst (edit_extracted_features_iFeature t out p w) \<noteq> Inl UnknownDescriptor"
proof (cases "files w t")
  case None
  then show ?thesis by (simp add: edit_extracted_features_iFeature_def)
next
  case (Some raw0)
  obtain r written where lp:
    "iFeature_loop p (readlines (if out = t then [] else raw0)) [] = (r, written)"
    by (cases "iFeature_loop p (readlines (if out = t then [] else raw0)) []") auto
  have "r \<noteq> Inl UnknownDescriptor"
    using iFeature_loop_error[of p "readlines (if out = t then [] else raw0)" "[]" UnknownDescriptor] lp
    by auto
  then show ?thesis
    using Some lp
    by (cases r) (auto simp: edit_extracted_features_iFeature_def Let_def)
qed

lemma POSSUM_for_single:
  "sys_calls (snd (POSSUM_for env self fd [d] w)) = sys_calls w @ [POSSUM_command env self d]
   \<and> fst (POSSUM_for env self fd [d] w) \<noteq> Inl UnknownDescriptor"
proof -
  define w2 where "w2 = (let w1 = os_system_tool (POSSUM_command env self d) (possum env d w)
                 (temp_output_path env self d) w in
          (if \<not> os_path_exists w1 (output_dir self)
                then w1\<lparr>dirs := insert (output_dir self) (dirs w1)\<rparr> else w1))"
  have sc: "sys_calls w2 = sys_calls w @ [POSSUM_command env self d]"
    by (simp add: w2_def os_system_tool_def Let_def split: option.splits)
  obtain r w3 where e: "edit_extracted_features_POSSUM (temp_output_path env self d) (output_path self d) fd w2 = (r, w3)"
    by (cases "edit_extracted_features_POSSUM (temp_output_path env self d) (output_path self d) fd w2") auto
  have "sys_calls w3 = sys_calls w2" "r \<noteq> Inl UnknownDescriptor"
    using edit_POSSUM_frame[of "temp_output_path env self d" "output_path self d" fd w2] e by auto
  moreover have "POSSUM_for env self fd [d] w = (case r of Inl e \<Rightarrow> (Inl e, w3) | Inr _ \<Rightarrow> (Inr (Some (output_path self d)), w3))"
    using e by (simp add: w2_def Let_def split: sum.splits)
  ultimately show ?thesis using sc by (cases r) auto
qed

lemma iFeature_for_single:
  "sys_calls (snd (iFeature_for env self [d] w)) = sys_calls w @ [iFeature_command env self d]
   \<and> fst (iFeature_for env self [d] w) \<noteq> Inl UnknownDescriptor"
proof -
  define w1 where "w1 = os_system_tool (iFeature_command env self d) (ifeature env d w)
                 (temp_output_path env self d) w"
  have sc: "sys_calls w1 = sys_calls w @ [iFeature_command env self d]"
    by (simp add: w1_def os_system_tool_def Let_def split: option.splits)
  obtain m w2 where mk: "(if \<not> os_path_isdir w1 (output_dir self)
               then os_makedirs (output_dir self) w1 else (Inr (), w1)) = (m, w2)"
    by (cases "(if \<not> os_path_isdir w1 (output_dir self)
               then os_makedirs (output_dir self) w1 else (Inr (), w1))") auto
  have m2: "sys_calls w2 = sys_calls w1" "m \<noteq> Inl UnknownDescriptor"
    using mk by (auto simp: os_makedirs_def split: if_splits)
  obtain r w3 where e: "edit_extracted_features_iFeature (temp_output_path env self d) (output_path self d) (place_protein_id self) w2 = (r, w3)"
    by (cases "edit_extracted_features_iFeature (temp_output_path env self d) (output_path self d) (place_protein_id self) w2") auto
  have e2: "sys_calls w3 = sys_calls w2" "r \<noteq> Inl UnknownDescriptor"
    using edit_iFeature_frame[of "temp_output_path env self d" "output_path self d" "place_protein_id self" w2] e by auto
  have "iFeature_for env self [d] w =
     (case m of Inl e \<Rightarrow> (Inl e, w2) | Inr _ \<Rightarrow>
        (case r of Inl e \<Rightarrow> (Inl e, w3) | Inr _ \<Rightarrow> (Inr (Some (output_path self d)), w3)))"
    using mk e unfolding w1_def by (simp add: Let_def split: sum.splits)
  then show ?thesis using sc m2 e2 by (cases m; cases r) auto
qed


lemma POSSUM_for_first_only:
  "POSSUM_for env self fasta_dict (d # rest) w = POSSUM_for env self fasta_dict [d] w"
  by simp

lemma iFeature_for_first_only:
  "iFeature_for env self (d # rest) w = iFeature_for env self [d] w"
  by simp

text \<open>
  C4, as the code has it. Neither the constructor nor the two extraction methods test
  the descriptor name against a vocabulary: for a name in neither vocabulary,
  \<open>extract_POSSUM_feature\<close>, once the FASTA is parsed and the matrices acquired, runs the
  PSSM tool once with that very name as descriptor type, and
  \<open>extract_iFeature_feature\<close> runs the encoding tool once with it; no
  \<open>UnknownDescriptor\<close> error is raised.
\<close>

theorem unknown_descriptor_reaches_tool:
  assumes "feat \<notin> set (POSSUM_desc_list (init feat place folder name))
                 \<union> set (iFeature_desc_list (init feat place folder name))"
    and "read_fasta_to_dict folder name place w = Inr fasta_dict"
    and "copy_form_pssm_matrices env fasta_dict w = (Inr (), w1)"
  shows "sys_calls (snd (extract_POSSUM_feature env (init feat place folder name) w))
           = sys_calls w1 @ [POSSUM_command env (init feat place folder name) feat]
     \<and> fst (extract_POSSUM_feature env (init feat place folder name) w) \<noteq> Inl UnknownDescriptor
     \<and> sys_calls (snd (extract_iFeature_feature env (init feat place folder name) w))
           = sys_calls w @ [iFeature_command env (init feat place folder name) feat]
     \<and> fst (extract_iFeature_feature env (init feat place folder name) w) \<noteq> Inl UnknownDescriptor"
proof -
  let ?self = "init feat place folder name"
  have ne: "feat \<noteq> ''all_POSSUM''" "feat \<noteq> ''all_iFeature''"
    using assms(1) by (auto simp: init_def)
  have sel: "protein_feature ?self = feat" "input_folder ?self = folder"
      "fasta_file_name ?self = name" "place_protein_id ?self = place"
    by (simp_all add: init_def)
  have p: "extract_POSSUM_feature env ?self w = POSSUM_for env ?self fasta_dict [feat] w1"
    using assms(2,3) ne sel by (simp add: extract_POSSUM_feature_def bindE_def)
  have i: "extract_iFeature_feature env ?self w = iFeature_for env ?self [feat] w"
    using ne sel by (simp add: extract_iFeature_feature_def)
  show ?thesis
    using POSSUM_for_single[of env ?self fasta_dict feat w1]
      iFeature_for_single[of env ?self feat w] p i by simp
qed

theorem unknown_descriptor_reaches_tool_witness:
  "sys_calls (snd (extract_POSSUM_feature example_env (init ''foo'' 1 ''input_folder'' ''sample'')
            example_world_fasta3))
     = sys_calls example_world_fasta3
       @ [POSSUM_command example_env (init ''foo'' 1 ''input_folder'' ''sample'') ''foo'']
   \<and> fst (extract_POSSUM_feature example_env (init ''foo'' 1 ''input_folder'' ''sample'')
            example_world_fasta3) \<noteq> Inl UnknownDescriptor
   \<and> sys_calls (snd (extract_iFeature_feature example_env (init ''foo'' 1 ''input_folder'' ''sample'')
            example_world_fasta3))
     = sys_calls example_world_fasta3
       @ [iFeature_command example_env (init ''foo'' 1 ''input_folder'' ''sample'') ''foo'']
   \<and> fst (extract_iFeature_feature example_env (init ''foo'' 1 ''input_folder'' ''sample'')
            example_world_fasta3) \<noteq> Inl UnknownDescriptor"
proof -
  have h1: "''foo'' \<notin> set (POSSUM_desc_list (init ''foo'' 1 ''input_folder'' ''sample''))
                 \<union> set (iFeature_desc_list (init ''foo'' 1 ''input_folder'' ''sample''))"
    by code_simp
  have h2: "read_fasta_to_dict ''input_folder'' ''sample'' 1 example_world_fasta3
              = Inr [(''P1'', ''MKV''), (''P2'', ''MAL''), (''P3'', ''MGG'')]"
    by code_simp
  have d: "pssm_files example_world_fasta3
             = Some [(''P1.pssm'', ''m1''), (''P2.pssm'', ''m2''), (''P3.pssm'', ''m3'')]"
    by (simp add: example_world_fasta3_def)
  have sub: "set (dict_keys [(''P1'', ''MKV''), (''P2'', ''MAL''), (''P3'', ''MGG'')])
      \<subseteq> present (dict_keys [(''P1.pssm'', ''m1''), (''P2.pssm'', ''m2''), (''P3.pssm'', ''m3'')])"
    by (simp add: dict_keys_def present_def)
  have h3: "copy_form_pssm_matrices example_env
              [(''P1'', ''MKV''), (''P2'', ''MAL''), (''P3'', ''MGG'')] example_world_fasta3
            = (Inr (), example_world_fasta3)"
    using d sub by (rule copy_form_no_missing)
  show ?thesis
    using unknown_descriptor_reaches_tool [OF h1 h2 h3] .
qed

text \<open>
  C4, as the specification states it, fails for the name \<open>foo\<close>: the run is not
  rejected with \<open>UnknownDescriptor\<close>, and the PSSM tool has been started with
  \<open>-t foo\<close>.
\<close>

theorem unknown_descriptor_counterexample:
  "''foo'' \<notin> set (POSSUM_desc_list (init ''foo'' 1 ''input_folder'' ''sample''))
   \<and> ''foo'' \<notin> set (iFeature_desc_list (init ''foo'' 1 ''input_folder'' ''sample''))
   \<and> fst (extract_POSSUM_feature example_env (init ''foo'' 1 ''input_folder'' ''sample'')
            example_world_fasta3) \<noteq> Inl UnknownDescriptor
   \<and> sys_calls (snd (extract_POSSUM_feature example_env (init ''foo'' 1 ''input_folder'' ''sample'')
            example_world_fasta3))
       = [POSSUM_command example_env (init ''foo'' 1 ''input_folder'' ''sample'') ''foo'']"
  by code_simp

text \<open>
  C1 on the code. On the FASTA of three proteins, with every matrix present and tools
  that write three raw lines for any descriptor, a run with \<open>all_POSSUM\<close> returns the
  output path of the first descriptor visited, has started the tool once, and leaves an
  output file for one of the 21 concrete descriptors only; a run with \<open>all_iFeature\<close>
  does the same for the encoding family. The \<open>return\<close> inside the loop body ends the
  method after the first descriptor (\<open>POSSUM_for_first_only\<close>,
  \<open>iFeature_for_first_only\<close>), whichever order the set is iterated in.
\<close>

theorem all_mode_stops_after_first_descriptor:
  "fst (extract_POSSUM_feature example_env (init ''all_POSSUM'' 1 ''input_folder'' ''sample'')
          example_world_fasta3)
     = Inr (Some ''feature_extraction_output/input_folder/sample_aac_pssm.txt'')
   \<and> length (sys_calls (snd (extract_POSSUM_feature example_env
          (init ''all_POSSUM'' 1 ''input_folder'' ''sample'') example_world_fasta3))) = 1
   \<and> length (filter
        (\<lambda>d. files (snd (extract_POSSUM_feature example_env
                 (init ''all_POSSUM'' 1 ''input_folder'' ''sample'') example_world_fasta3))
               (output_path (init ''all_POSSUM'' 1 ''input_folder'' ''sample'') d) \<noteq> None)
        (set_diff (POSSUM_desc_list (init ''all_POSSUM'' 1 ''input_folder'' ''sample''))
           [''all_POSSUM''])) = 1
   \<and> length (set_diff (POSSUM_desc_list (init ''all_POSSUM'' 1 ''input_folder'' ''sample''))
           [''all_POSSUM'']) = 21
   \<and> fst (extract_iFeature_feature example_env (init ''all_iFeature'' 1 ''input_folder'' ''sample'')
          example_world_fasta3)
     = Inr (Some ''feature_extraction_output/input_folder/sample_AAC.txt'')
   \<and> length (filter
        (\<lambda>d. files (snd (extract_iFeature_feature example_env
                 (init ''all_iFeature'' 1 ''input_folder'' ''sample'') example_world_fasta3))
               (output_path (init ''all_iFeature'' 1 ''input_folder'' ''sample'') d) \<noteq> None)
        (set_diff (iFeature_desc_list (init ''all_iFeature'' 1 ''input_folder'' ''sample''))
           [''all_iFeature''])) = 1"
  by code_simp

subsection \<open>The FASTA parser\<close>

lemma dict_keys_dict_set: "set (dict_keys (dict_set k v d)) = insert k (set (dict_keys d))"
  by (induction d) (auto simp: dict_keys_def)

lemma strip_keeps_head:
  assumes "line \<noteq> []" and "\<not> isspace (hd line)"
  shows "str_strip line \<noteq> [] \<and> hd (str_strip line) = hd line"
proof -
  obtain c cs where l: "line = c # cs" using assms(1) by (cases line) auto
  have c: "\<not> isspace c" using assms(2) l by simp
  have d: "dropWhile isspace line = c # cs" using l c by simp
  have "\<exists>zs. dropWhile isspace (rev cs @ [c]) = zs @ [c]"
  proof (cases "\<forall>x\<in>set (rev cs). isspace x")
    case True
    then have "dropWhile isspace (rev cs @ [c]) = [] @ [c]"
      using c by (simp add: dropWhile_append)
    then show ?thesis by blast
  next
    case False
    then have "dropWhile isspace (rev cs @ [c]) = dropWhile isspace (rev cs) @ [c]"
      by (simp add: dropWhile_append)
    then show ?thesis by blast
  qed
  then obtain zs where "dropWhile isspace (rev (c # cs)) = zs @ [c]" by auto
  then have "str_strip line = c # rev zs"
    using d by (simp add: str_strip_def)
  then show ?thesis using l by simp
qed

lemma not_isspace_gt: "\<not> isspace (CHR ''>'')"
  by (simp add: isspace_def)

lemma header_field_rule:
  assumes "line \<noteq> []" and "hd line = CHR ''>''"
    and "index (str_split (CHR ''|'') (str_strip line)) place = Inr field"
  shows "(if place = 0 then drop 1 field else field)
         = (if place = 0 \<and> field \<noteq> [] \<and> hd field = CHR ''>'' then tl field else field)"
proof (cases "place = 0")
  case False then show ?thesis by simp
next
  case True
  have s: "str_strip line \<noteq> []" "hd (str_strip line) = CHR ''>''"
    using strip_keeps_head[of line] assms(1,2) not_isspace_gt by auto
  have "field = hd (str_split (CHR ''|'') (str_strip line))"
    using assms(3) True str_split_not_Nil[of "CHR ''|''" "str_strip line"]
    by (auto simp: index_def hd_conv_nth split: if_splits)
  then have "field = takeWhile (\<lambda>c. c \<noteq> CHR ''|'') (str_strip line)"
    by (simp add: hd_str_split)
  then have "field \<noteq> [] \<and> hd field = CHR ''>''"
    using s by (cases "str_strip line") auto
  then show ?thesis using True by (cases field) auto
qed

lemma fasta_step_header:
  assumes "line \<noteq> []" and "hd line = CHR ''>''"
  shows "fasta_step place line (d, s, p) =
     (case spec_identifier place (str_strip line) of
        Inl e \<Rightarrow> Inl e
      | Inr ident \<Rightarrow>
          (let d1 = (if p \<noteq> [] then dict_set p s d else d)
           in if ident \<notin> set (dict_keys d1) then Inr (dict_set ident [] d1, [], ident)
              else Inr (d1, s, ident)))"
proof (cases "index (str_split (CHR ''|'') (str_strip line)) place")
  case (Inl e)
  then show ?thesis using assms by (simp add: fasta_step_def spec_identifier_def Let_def)
next
  case (Inr field)
  show ?thesis
    using assms Inr header_field_rule[OF assms Inr]
    by (simp add: fasta_step_def spec_identifier_def Let_def)
qed

lemma fasta_step_sequence:
  assumes "line \<noteq> []" and "hd line \<noteq> CHR ''>''"
  shows "fasta_step place line (d, s, p) = Inr (d, s @ str_strip line, p)"
  using assms by (simp add: fasta_step_def)


lemma fasta_loop_keys:
  assumes "fasta_loop place lines (d, s, p) = Inr (d', s', p')"
    and "p = [] \<or> p \<in> set (dict_keys d)"
  shows "set (dict_keys d') = set (dict_keys d) \<union> set (header_idents place lines)
    \<and> (filter is_header lines = [] \<longrightarrow> p' = p \<and> d' = d)
    \<and> (filter is_header lines \<noteq> [] \<longrightarrow> p' \<in> set (dict_keys d'))
    \<and> (\<forall>h\<in>set (filter is_header lines). \<exists>i. spec_identifier place (str_strip h) = Inr i)"
  using assms
proof (induction lines arbitrary: d s p)
  case Nil
  then show ?case by (simp add: header_idents_def)
next
  case (Cons line lines)
  from Cons.prems(1) obtain st where st: "fasta_step place line (d, s, p) = Inr st"
    and rest: "fasta_loop place lines st = Inr (d', s', p')"
    by (auto split: sum.splits)
  have ne: "line \<noteq> []" using st by (auto simp: fasta_step_def)
  show ?case
  proof (cases "hd line = CHR ''>''")
    case False
    then have nh: "\<not> is_header line" by (simp add: is_header_def)
    have "st = (d, s @ str_strip line, p)"
      using st fasta_step_sequence[OF ne False] by simp
    then have r: "fasta_loop place lines (d, s @ str_strip line, p) = Inr (d', s', p')"
      using rest by simp
    have f: "filter is_header (line # lines) = filter is_header lines"
      using nh by simp
    have hi: "header_idents place (line # lines) = header_idents place lines"
      using nh by (simp add: header_idents_def)
    show ?thesis
      unfolding f hi by (rule Cons.IH[OF r Cons.prems(2)])
  next
    case True
    then have h: "is_header line" using ne by (simp add: is_header_def)
    let ?d1 = "if p \<noteq> [] then dict_set p s d else d"
    have k1: "set (dict_keys ?d1) = set (dict_keys d)"
      using Cons.prems(2) by (auto simp: dict_keys_dict_set)
    from st fasta_step_header[OF ne True, of place d s p]
    obtain ident where id: "spec_identifier place (str_strip line) = Inr ident"
      and st2: "st = (if ident \<notin> set (dict_keys ?d1) then (dict_set ident [] ?d1, [], ident)
                      else (?d1, s, ident))"
      by (auto simp: Let_def split: sum.splits if_splits)
    obtain d2 s2 where st3: "st = (d2, s2, ident)"
      and k2: "set (dict_keys d2) = insert ident (set (dict_keys d))"
      using st2 k1 by (cases "ident \<in> set (dict_keys ?d1)") (auto simp: dict_keys_dict_set)
    have inv: "ident = [] \<or> ident \<in> set (dict_keys d2)" using k2 by simp
    have hi: "header_idents place (line # lines) = ident # header_idents place lines"
      using h id by (simp add: header_idents_def)
    have r2: "fasta_loop place lines (d2, s2, ident) = Inr (d', s', p')"
      using rest st3 by simp
    note IH = Cons.IH[OF r2 inv]
    have f: "filter is_header (line # lines) = line # filter is_header lines"
      using h by simp
    have c1: "set (dict_keys d') = set (dict_keys d) \<union> set (header_idents place (line # lines))"
    proof -
      have "set (dict_keys d') = set (dict_keys d2) \<union> set (header_idents place lines)"
        using IH by blast
      then show ?thesis unfolding hi k2 by auto
    qed
    have c3: "p' \<in> set (dict_keys d')"
    proof (cases "filter is_header lines = []")
      case True
      then have "p' = ident \<and> d' = d2" using IH by blast
      then show ?thesis using k2 by simp
    next
      case False
      then show ?thesis using IH by blast
    qed
    have c4: "\<forall>h\<in>set (line # filter is_header lines).
                \<exists>i. spec_identifier place (str_strip h) = Inr i"
    proof -
      have "\<forall>h\<in>set (filter is_header lines). \<exists>i. spec_identifier place (str_strip h) = Inr i"
        using IH by blast
      then show ?thesis using id by simp
    qed
    show ?thesis
      unfolding f using c1 c3 c4 by simp
  qed
qed

text \<open>
  C6, as the code has it. A header line is a line of the FASTA file that starts with
  \<open>>\<close>. The parser first removes the whitespace at both ends of the header line, then
  splits it on \<open>|\<close> and takes the field at the header field index, without its leading
  \<open>>\<close> when the index is 0. Whenever the parser returns, every header line has such an
  identifier, the identifier is a key of the mapping, and the keys of the mapping are
  exactly these identifiers (the empty identifier alone when the file has no header
  line).
\<close>

theorem fasta_identifiers:
  assumes "files w (input_dir @ ''/'' @ fasta_file @ ''.fasta'') = Some content"
    and "read_fasta_to_dict input_dir fasta_file place w = Inr fasta_dict"
  shows "(\<forall>h\<in>set (filter is_header (readlines content)).
            \<exists>ident. spec_identifier place (str_strip h) = Inr ident
                     \<and> ident \<in> set (dict_keys fasta_dict))
    \<and> set (dict_keys fasta_dict)
        = (if filter is_header (readlines content) = [] then {[]}
           else set (header_idents place (readlines content)))"
proof -
  from assms obtain d' s' p' where
    lp: "fasta_loop place (readlines content) ([], [], []) = Inr (d', s', p')"
    and fd: "fasta_dict = dict_set p' s' d'"
    by (auto simp: read_fasta_to_dict_def split: sum.splits)
  have e: "set (dict_keys ([]::pydict)) = {}" by (simp add: dict_keys_def)
  have "([]::string) = [] \<or> [] \<in> set (dict_keys [])" by simp
  note K0 = fasta_loop_keys[OF lp this]
  have K1: "set (dict_keys d') = set (header_idents place (readlines content))"
    using K0 e by simp
  have K2: "filter is_header (readlines content) = [] \<Longrightarrow> p' = [] \<and> d' = []"
    using K0 by blast
  have K3: "filter is_header (readlines content) \<noteq> [] \<Longrightarrow> p' \<in> set (dict_keys d')"
    using K0 by blast
  have K4: "\<And>h. h \<in> set (filter is_header (readlines content)) \<Longrightarrow>
          \<exists>i. spec_identifier place (str_strip h) = Inr i"
    using K0 by blast
  have keys: "set (dict_keys fasta_dict) = insert p' (set (dict_keys d'))"
    using fd by (simp add: dict_keys_dict_set)
  have mem: "\<And>h i. h \<in> set (filter is_header (readlines content)) \<Longrightarrow>
      spec_identifier place (str_strip h) = Inr i \<Longrightarrow> i \<in> set (header_idents place (readlines content))"
    by (force simp: header_idents_def)
  show ?thesis
  proof (cases "filter is_header (readlines content) = []")
    case True
    then have "set (dict_keys fasta_dict) = {[]}"
      using K2 keys e by auto
    then show ?thesis using True by simp
  next
    case False
    then have eq: "set (dict_keys fasta_dict) = set (header_idents place (readlines content))"
      using K1 K3 keys by auto
    have "\<forall>h\<in>set (filter is_header (readlines content)).
            \<exists>ident. spec_identifier place (str_strip h) = Inr ident
                     \<and> ident \<in> set (dict_keys fasta_dict)"
      using K4 mem eq by blast
    then show ?thesis using False eq by simp
  qed
qed

text \<open>
  The scenario of the specification: the header \<open>>sp|O27002|Y1234_METTH\<close> with index 1.
\<close>

theorem fasta_identifiers_witness:
  "read_fasta_to_dict ''input_folder'' ''sample'' 1 (example_world_fasta example_fasta_O27002)
     = Inr [(''O27002'', ''MKVLAG'')]
   \<and> set (dict_keys [(''O27002'', ''MKVLAG'')])
       = set (header_idents 1 (readlines example_fasta_O27002))
   \<and> spec_identifier 1 (str_strip (''>sp|O27002|Y1234_METTH'' @ [NL])) = Inr ''O27002''"
proof -
  have h1: "files (example_world_fasta example_fasta_O27002)
              (''input_folder'' @ ''/'' @ ''sample'' @ ''.fasta'') = Some example_fasta_O27002"
    by (simp add: example_world_fasta_def)
  have h2: "read_fasta_to_dict ''input_folder'' ''sample'' 1
              (example_world_fasta example_fasta_O27002) = Inr [(''O27002'', ''MKVLAG'')]"
    by code_simp
  have h3: "filter is_header (readlines example_fasta_O27002) \<noteq> []"
    by code_simp
  have h4: "spec_identifier 1 (str_strip (''>sp|O27002|Y1234_METTH'' @ [NL])) = Inr ''O27002''"
    by code_simp
  show ?thesis
    using fasta_identifiers [OF h1 h2] h2 h3 h4 by simp
qed

text \<open>
  C6, as the specification states it, fails on a header whose chosen field ends with a
  space: splitting the header itself gives the field with the space, the parser's key has
  none.
\<close>

theorem fasta_identifier_counterexample:
  "read_fasta_to_dict ''input_folder'' ''sample'' 1
       (example_world_fasta (''>sp|O27002 '' @ [NL] @ ''MKV'' @ [NL]))
     = Inr [(''O27002'', ''MKV'')]
   \<and> spec_identifier 1 (chomp (''>sp|O27002 '' @ [NL])) = Inr ''O27002 ''
   \<and> ''O27002 '' \<noteq> ''O27002''"
  by code_simp

subsection \<open>The encoding-family normalizer\<close>

lemma str_split_single: "sep \<notin> set a \<Longrightarrow> str_split sep a = [a]"
  by (induction a) auto

lemma str_split_append: "sep \<notin> set a \<Longrightarrow> str_split sep (a @ sep # t) = a # str_split sep t"
  by (induction a) auto

lemma str_split_join:
  "sep \<notin> set a \<Longrightarrow> \<forall>f\<in>set rest. sep \<notin> set f \<Longrightarrow>
   str_split sep (a @ concat (map (\<lambda>feature. sep # feature) rest)) = a # rest"
proof (induction rest arbitrary: a)
  case Nil
  then show ?case by (simp add: str_split_single)
next
  case (Cons f rest)
  have "str_split sep (f @ concat (map (\<lambda>feature. sep # feature) rest)) = f # rest"
    using Cons.IH[of f] Cons.prems(2) by simp
  then show ?case using Cons.prems(1) by (simp add: str_split_append)
qed

lemma str_split_parts: "x \<in> set (str_split sep s) \<Longrightarrow> set x \<subseteq> set s \<and> sep \<notin> set x"
proof (induction s arbitrary: x)
  case Nil then show ?case by simp
next
  case (Cons c cs)
  show ?case
  proof (cases "c = sep")
    case True
    then show ?thesis using Cons by auto
  next
    case False
    obtain w ws where s: "str_split sep cs = w # ws"
      using str_split_not_Nil[of sep cs] by (cases "str_split sep cs") auto
    have "x = c # w \<or> x \<in> set ws" using Cons.prems False s by simp
    then show ?thesis
    proof
      assume "x = c # w"
      then show ?thesis using Cons.IH[of w] s False by auto
    next
      assume "x \<in> set ws"
      then show ?thesis using Cons.IH[of x] s by auto
    qed
  qed
qed

lemma index_mem: "index xs i = Inr x \<Longrightarrow> x \<in> set xs"
  by (auto simp: index_def split: if_splits)

lemma iFeature_record_comment: "is_comment l \<Longrightarrow> iFeature_record p l = Inr []"
  by (simp add: iFeature_record_def is_comment_def)

lemma iFeature_record_data:
  assumes "l \<in> set (readlines raw)" and "\<not> is_comment l"
    and "index (str_split (CHR ''|'') (hd (str_split TAB (str_strip l)))) p = Inr ident"
  shows "\<exists>body. iFeature_record p l = Inr (body @ [NL]) \<and> NL \<notin> set body
           \<and> str_split TAB body = ident # tl (str_split TAB (str_strip l))"
proof -
  let ?fields = "str_split TAB (str_strip l)"
  let ?body = "ident @ concat (map (\<lambda>feature. TAB # feature) (tl ?fields))"
  have ne: "l \<noteq> []" using assms(1) by (rule readlines_nonempty)
  have nc: "hd l \<noteq> CHR ''#''" using assms(2) ne by (simp add: is_comment_def)
  have rec: "iFeature_record p l = Inr (?body @ [NL])"
    using ne nc assms(3) by (simp add: iFeature_record_def Let_def)
  have nl: "NL \<notin> set (str_strip l)"
    using assms(1) by (intro strip_no_NL readlines_inner)
  have fne: "?fields \<noteq> []" by (rule str_split_not_Nil)
  have hdm: "hd ?fields \<in> set ?fields" using fne by simp
  have tlm: "\<And>f. f \<in> set (tl ?fields) \<Longrightarrow> f \<in> set ?fields"
    using fne by (cases ?fields) auto
  have fp: "\<And>f. f \<in> set ?fields \<Longrightarrow> set f \<subseteq> set (str_strip l) \<and> TAB \<notin> set f"
    by (rule str_split_parts)
  have im: "ident \<in> set (str_split (CHR ''|'') (hd ?fields))"
    using assms(3) by (rule index_mem)
  have isub: "set ident \<subseteq> set (hd ?fields)"
    using str_split_parts[OF im] by simp
  have it: "TAB \<notin> set ident" using isub fp[OF hdm] by auto
  have inl: "NL \<notin> set ident" using isub fp[OF hdm] nl by auto
  have rt: "\<forall>f\<in>set (tl ?fields). TAB \<notin> set f" using fp tlm by blast
  have rnl: "\<forall>f\<in>set (tl ?fields). NL \<notin> set f" using fp tlm nl by blast
  have tn: "TAB \<noteq> NL" by (simp add: TAB_def NL_def)
  have bnl: "NL \<notin> set ?body" using inl rnl tn by auto
  have sp: "str_split TAB ?body = ident # tl ?fields"
    using it rt by (rule str_split_join)
  show ?thesis using rec bnl sp by blast
qed


lemma iFeature_loop_ok:
  "\<forall>l\<in>set ls. \<exists>t. iFeature_record p l = Inr t \<Longrightarrow>
   iFeature_loop p ls acc
     = (Inr (), acc @ concat (map (\<lambda>l. case iFeature_record p l of Inl e \<Rightarrow> [] | Inr t \<Rightarrow> t) ls))"
  by (induction ls arbitrary: acc) auto

lemma concat_map_filter_empty:
  "\<forall>l\<in>set ls. P l \<longrightarrow> g l = [] \<Longrightarrow>
   concat (map g ls) = concat (map g (filter (\<lambda>l. \<not> P l) ls))"
  by (induction ls) auto

lemma chomp_record: "NL \<notin> set body \<Longrightarrow> chomp (body @ [NL]) = body"
  unfolding chomp_def by (induction body) auto

text \<open>
  C9, as the code has it. The normalizer writes nothing for a raw line that starts with
  \<open>#\<close>. Every other raw line is first stripped of the whitespace at both ends, then split
  on the tab; the identifier is the field at the header field index of the first field
  split on \<open>|\<close>, taken as it is at every index. When every such line has that field and
  the raw file is another file than the output file, the normalizer returns normally,
  removes the raw file, and the output file has one line per data line, in order, whose
  tab-separated fields are the identifier followed by the remaining fields of the
  stripped raw line.
\<close>

theorem iFeature_normalizer_lines:
  assumes "files w temp_output_file = Some raw"
    and "output_file \<noteq> temp_output_file"
    and "\<forall>line\<in>set (data_lines raw).
           \<exists>ident. index (str_split (CHR ''|'') (hd (str_split TAB (str_strip line)))) place
                     = Inr ident"
  shows "fst (edit_extracted_features_iFeature temp_output_file output_file place w) = Inr ()
    \<and> files (snd (edit_extracted_features_iFeature temp_output_file output_file place w))
        temp_output_file = None
    \<and> (\<exists>written.
          files (snd (edit_extracted_features_iFeature temp_output_file output_file place w))
            output_file = Some written
          \<and> length (readlines written) = length (data_lines raw)
          \<and> (\<forall>i<length (data_lines raw).
                \<exists>ident.
                  index (str_split (CHR ''|'')
                           (hd (str_split TAB (str_strip (data_lines raw ! i))))) place
                    = Inr ident
                  \<and> str_split TAB (chomp (readlines written ! i))
                      = ident # tl (str_split TAB (str_strip (data_lines raw ! i)))))"
proof -
  let ?g = "\<lambda>l. case iFeature_record place l of Inl e \<Rightarrow> [] | Inr t \<Rightarrow> t"
  let ?dl = "data_lines raw"
  let ?recs = "map ?g ?dl"
  have dl: "\<And>l. l \<in> set ?dl \<longleftrightarrow> l \<in> set (readlines raw) \<and> \<not> is_comment l"
    by (simp add: data_lines_def)
  have data: "\<And>l. l \<in> set ?dl \<Longrightarrow>
      \<exists>ident body. index (str_split (CHR ''|'') (hd (str_split TAB (str_strip l)))) place = Inr ident
        \<and> iFeature_record place l = Inr (body @ [NL]) \<and> NL \<notin> set body
        \<and> str_split TAB body = ident # tl (str_split TAB (str_strip l))"
  proof -
    fix l assume m: "l \<in> set ?dl"
    then obtain ident where
      i: "index (str_split (CHR ''|'') (hd (str_split TAB (str_strip l)))) place = Inr ident"
      using assms(3) by blast
    have "l \<in> set (readlines raw)" "\<not> is_comment l" using m dl by auto
    from iFeature_record_data[OF this i] i
    show "\<exists>ident body. index (str_split (CHR ''|'') (hd (str_split TAB (str_strip l)))) place = Inr ident
        \<and> iFeature_record place l = Inr (body @ [NL]) \<and> NL \<notin> set body
        \<and> str_split TAB body = ident # tl (str_split TAB (str_strip l))"
      by blast
  qed
  have all: "\<forall>l\<in>set (readlines raw). \<exists>t. iFeature_record place l = Inr t"
  proof
    fix l assume m: "l \<in> set (readlines raw)"
    show "\<exists>t. iFeature_record place l = Inr t"
    proof (cases "is_comment l")
      case True
      then show ?thesis by (simp add: iFeature_record_comment)
    next
      case False
      then have "l \<in> set ?dl" using m dl by simp
      then show ?thesis using data by blast
    qed
  qed
  have lp: "iFeature_loop place (readlines raw) [] = (Inr (), concat (map ?g (readlines raw)))"
    using iFeature_loop_ok[OF all, of "[]"] by simp
  have "\<forall>l\<in>set (readlines raw). is_comment l \<longrightarrow> ?g l = []"
    by (simp add: iFeature_record_comment)
  then have cf: "concat (map ?g (readlines raw)) = concat ?recs"
    unfolding data_lines_def by (rule concat_map_filter_empty)
  have shape: "\<And>r. r \<in> set ?recs \<Longrightarrow> \<exists>l. r = l @ [NL] \<and> NL \<notin> set l"
  proof -
    fix r assume "r \<in> set ?recs"
    then obtain l where l: "l \<in> set ?dl" and r: "r = ?g l" by auto
    from data[OF l] obtain body where "iFeature_record place l = Inr (body @ [NL])"
      and "NL \<notin> set body" by blast
    then show "\<exists>l. r = l @ [NL] \<and> NL \<notin> set l" using r by simp
  qed
  have rl: "readlines (concat ?recs) = ?recs"
    using shape by (rule readlines_concat_records)
  have res: "edit_extracted_features_iFeature temp_output_file output_file place w
      = (Inr (), w\<lparr>files := ((files w)(output_file \<mapsto> concat ?recs))(temp_output_file := None)\<rparr>)"
    using assms(1,2) lp cf
    by (simp add: edit_extracted_features_iFeature_def Let_def)
  have c1: "fst (edit_extracted_features_iFeature temp_output_file output_file place w) = Inr ()"
    using res by simp
  have c2: "files (snd (edit_extracted_features_iFeature temp_output_file output_file place w))
              temp_output_file = None"
    using res by simp
  have c3: "files (snd (edit_extracted_features_iFeature temp_output_file output_file place w))
              output_file = Some (concat ?recs)"
    using res assms(2) by simp
  have c4: "length (readlines (concat ?recs)) = length ?dl"
    using rl by simp
  have c5: "\<forall>i<length ?dl.
              \<exists>ident.
                index (str_split (CHR ''|'') (hd (str_split TAB (str_strip (?dl ! i))))) place
                  = Inr ident
                \<and> str_split TAB (chomp (readlines (concat ?recs) ! i))
                    = ident # tl (str_split TAB (str_strip (?dl ! i)))"
  proof (intro allI impI)
    fix i assume i: "i < length ?dl"
    then have m: "?dl ! i \<in> set ?dl" by simp
    from data[OF m] obtain ident body where
      a: "index (str_split (CHR ''|'') (hd (str_split TAB (str_strip (?dl ! i))))) place = Inr ident"
      and b: "iFeature_record place (?dl ! i) = Inr (body @ [NL])"
      and c: "NL \<notin> set body"
      and d: "str_split TAB body = ident # tl (str_split TAB (str_strip (?dl ! i)))"
      by blast
    have "readlines (concat ?recs) ! i = ?g (?dl ! i)"
      using rl i by simp
    then have "readlines (concat ?recs) ! i = body @ [NL]" using b by simp
    then have "chomp (readlines (concat ?recs) ! i) = body"
      using c by (simp add: chomp_record)
    then show "\<exists>ident.
                index (str_split (CHR ''|'') (hd (str_split TAB (str_strip (?dl ! i))))) place
                  = Inr ident
                \<and> str_split TAB (chomp (readlines (concat ?recs) ! i))
                    = ident # tl (str_split TAB (str_strip (?dl ! i)))"
      using a d by simp
  qed
  show ?thesis using c1 c2 c3 c4 c5 by blast
qed

text \<open>A raw output of one comment line and two data lines, with index 1.\<close>

theorem iFeature_normalizer_lines_witness:
  "fst (edit_extracted_features_iFeature ''raw.txt'' ''out.txt'' 1
          (example_world_raw example_raw_iFeature)) = Inr ()
   \<and> files (snd (edit_extracted_features_iFeature ''raw.txt'' ''out.txt'' 1
                   (example_world_raw example_raw_iFeature))) ''raw.txt'' = None
   \<and> (\<exists>written.
         files (snd (edit_extracted_features_iFeature ''raw.txt'' ''out.txt'' 1
                  (example_world_raw example_raw_iFeature))) ''out.txt'' = Some written
         \<and> length (readlines written) = 2
         \<and> str_split TAB (chomp (readlines written ! 1)) = [''P2'', ''0.3'', ''0.4''])"
proof -
  let ?l1 = "''sp|P1|A_HUMAN'' @ [TAB] @ ''0.1'' @ [TAB] @ ''0.2'' @ [NL]"
  let ?l2 = "''sp|P2|B_HUMAN'' @ [TAB] @ ''0.3'' @ [TAB] @ ''0.4'' @ [NL]"
  have h1: "files (example_world_raw example_raw_iFeature) ''raw.txt'' = Some example_raw_iFeature"
    by (simp add: example_world_raw_def)
  have h2: "''out.txt'' \<noteq> ''raw.txt''" by simp
  have dl: "data_lines example_raw_iFeature = [?l1, ?l2]"
    by code_simp
  have i1: "index (str_split (CHR ''|'') (hd (str_split TAB (str_strip ?l1)))) 1 = Inr ''P1''"
    by code_simp
  have i2: "index (str_split (CHR ''|'') (hd (str_split TAB (str_strip ?l2)))) 1 = Inr ''P2''"
    by code_simp
  have t2: "tl (str_split TAB (str_strip ?l2)) = [''0.3'', ''0.4'']"
    by code_simp
  have h3: "\<forall>line\<in>set (data_lines example_raw_iFeature).
              \<exists>ident. index (str_split (CHR ''|'') (hd (str_split TAB (str_strip line)))) 1
                        = Inr ident"
    unfolding dl using i1 i2 by simp
  show ?thesis
    using iFeature_normalizer_lines [OF h1 h2 h3] unfolding dl using i2 t2 by auto
qed

text \<open>
  C9, as the specification states it, fails on a raw line whose last value ends with a
  space: the value is written without the space.
\<close>

theorem iFeature_line_counterexample:
  "str_split TAB (chomp (''sp|P1|A_HUMAN'' @ [TAB] @ ''0.1'' @ [TAB] @ ''0.2 '' @ [NL]))
     = [''sp|P1|A_HUMAN'', ''0.1'', ''0.2 '']
   \<and> files (snd (edit_extracted_features_iFeature ''raw.txt'' ''out.txt'' 1
                   (example_world_raw
                      (''sp|P1|A_HUMAN'' @ [TAB] @ ''0.1'' @ [TAB] @ ''0.2 '' @ [NL]))))
         ''out.txt''
       = Some (''P1'' @ [TAB] @ ''0.1'' @ [TAB] @ ''0.2'' @ [NL])"
  by code_simp

subsection \<open>A repeated identifier\<close>















end
